theory Spec2Isabelle
  imports Complex_Main "HOL-Library.AList"
begin

section \<open>Persisted state\<close>

text \<open>
  The program keeps all of its state in files under \<^verbatim>\<open>secure_rooms/\<close>, the store:
  the JSON object \<^verbatim>\<open>_room_passwords.json\<close> (room name to password digest),
  the JSON object \<^verbatim>\<open>_otp_cache.json\<close> (username to the outstanding code and its
  time of issue) and one directory per room. A JSON object is a map; a file that does not
  exist yet is \<open>None\<close>, and one that exists holds the object that the program last wrote. A room directory is an association list from names to entries,
  in the order in which \<^verbatim>\<open>os.listdir\<close> enumerates it; an entry is a regular file
  or a sub-directory, of which only the modification time matters here. \<open>store_files\<close>
  are the other regular files that lie directly in the store. Clock readings
  (\<^verbatim>\<open>time.time()\<close>, modification times) are seconds since the epoch as real
  numbers; Python strings are lists of characters, each a code point below 256.
\<close>

record otp_entry =
  otp :: string
  timestamp :: real

record room_file =
  content :: string
  mtime :: real

datatype entry = File room_file | Subdir real

type_synonym dir = "(string \<times> entry) list"

record world =
  rooms_file :: "(string \<rightharpoonup> string) option"
  otp_file :: "(string \<rightharpoonup> otp_entry) option"
  room_dirs :: "string \<rightharpoonup> dir"
  store_files :: "string \<rightharpoonup> room_file"

definition AUTO_DELETE_HOURS :: int where
  "AUTO_DELETE_HOURS = 12"

section \<open>One-time passwords\<close>

text \<open>\<^verbatim>\<open>str\<close> of a Python integer: its decimal digits, with a sign when negative.\<close>

definition digit_char :: "nat \<Rightarrow> char" where
  "digit_char d = ''0123456789'' ! d"

function str_nat :: "nat \<Rightarrow> string" where
  "str_nat n = (if n < 10 then [digit_char n] else str_nat (n div 10) @ [digit_char (n mod 10)])"
  by pat_completeness auto
termination
  by (relation "measure id") auto

declare str_nat.simps [simp del]

definition str_int :: "int \<Rightarrow> string" where
  "str_int i = (if i < 0 then CHR ''-'' # str_nat (nat (- i)) else str_nat (nat i))"

text \<open>
  Every function of the source that touches the file system takes the world and returns its
  value together with the world it leaves behind.
\<close>

definition load_otps :: "world \<Rightarrow> (string \<rightharpoonup> otp_entry) \<times> world" where
  "load_otps s = (case otp_file s of None \<Rightarrow> (Map.empty, s) | Some data \<Rightarrow> (data, s))"

definition save_otps :: "(string \<rightharpoonup> otp_entry) \<Rightarrow> world \<Rightarrow> world" where
  "save_otps data s = s\<lparr>otp_file := Some data\<rparr>"

text \<open>
  \<open>generate_otp username r now\<close>: \<open>r\<close> is the integer that
  \<^verbatim>\<open>random.randint(100000, 999999)\<close> returns and \<open>now\<close> the reading of
  \<^verbatim>\<open>time.time()\<close>.
\<close>

definition generate_otp :: "string \<Rightarrow> int \<Rightarrow> real \<Rightarrow> world \<Rightarrow> string \<times> world" where
  "generate_otp username r now s =
     (let otp_str = str_int r;
          (data, s1) = load_otps s;
          data' = data(username \<mapsto> \<lparr>otp = otp_str, timestamp = now\<rparr>);
          s2 = save_otps data' s1
      in (otp_str, s2))"

definition validate_otp :: "string \<Rightarrow> string \<Rightarrow> real \<Rightarrow> world \<Rightarrow> bool \<times> world" where
  "validate_otp username input_otp now s =
     (let (data, s1) = load_otps s
      in case data username of
           Some entry \<Rightarrow>
             if now - timestamp entry > 300 then (False, s1)
             else (otp entry = input_otp, s1)
         | None \<Rightarrow> (False, s1))"

section \<open>Room directories\<close>

subsection \<open>Names\<close>

text \<open>\<^verbatim>\<open>str.encode()\<close>: UTF-8, for characters below code point 256.\<close>

definition encode_char :: "char \<Rightarrow> nat list" where
  "encode_char c =
     (let n = of_char c in if n < 128 then [n] else [192 + n div 64, 128 + n mod 64])"

definition encode :: "string \<Rightarrow> nat list" where
  "encode s = concat (map encode_char s)"

text \<open>
  The handler builds the path \<^verbatim>\<open>secure_rooms/<room>\<close> from the room name as typed, and
  the path of an upload from the name the upload carries. On a POSIX file system with
  case-sensitive names of at most 255 bytes, a name is its own single path component when it
  is not empty, holds no \<^verbatim>\<open>/\<close> and no NUL, is neither \<^verbatim>\<open>.\<close> nor \<^verbatim>\<open>..\<close>, and
  is at most 255 bytes long. Such a room name, when it is not the name of one of the two
  tables either, names a directory of its own directly in the store.
\<close>

definition single_component :: "string \<Rightarrow> bool" where
  "single_component name \<longleftrightarrow>
     name \<noteq> [] \<and> CHR ''/'' \<notin> set name \<and> CHR 0x00 \<notin> set name \<and>
     name \<noteq> ''.'' \<and> name \<noteq> ''..'' \<and> length (encode name) \<le> 255"

definition plain_name :: "string \<Rightarrow> bool" where
  "plain_name room \<longleftrightarrow>
     single_component room \<and> room \<noteq> ''_room_passwords.json'' \<and> room \<noteq> ''_otp_cache.json''"

subsection \<open>Calls of the operating system\<close>

text \<open>
  The calls of the \<^verbatim>\<open>os\<close> module and of \<^verbatim>\<open>open\<close> that the source makes; they raise
  where the operating system does. \<open>OutsideModel\<close> is no exception of the program: it is
  the result for a name that is a path of several components, \<^verbatim>\<open>.\<close>, \<^verbatim>\<open>..\<close> or the
  name of a table, whose directory is not one of its own directly in the store. The model
  does not follow such names, and no statement below is about them.
\<close>

datatype error =
  FileNotFoundError | IsADirectoryError | FileExistsError | ValueError | OSError | OutsideModel

definition entry_mtime :: "entry \<Rightarrow> real" where
  "entry_mtime e = (case e of File f \<Rightarrow> mtime f | Subdir m \<Rightarrow> m)"

definition os_listdir :: "dir \<Rightarrow> string list" where
  "os_listdir d = map fst d"

definition os_remove :: "string \<Rightarrow> dir \<Rightarrow> error + dir" where
  "os_remove fname d =
     (case map_of d fname of
        None \<Rightarrow> Inl FileNotFoundError
      | Some (Subdir m) \<Rightarrow> Inl IsADirectoryError
      | Some (File f) \<Rightarrow> Inr (AList.delete fname d))"

definition os_path_getmtime :: "string \<Rightarrow> dir \<Rightarrow> error + real" where
  "os_path_getmtime fname d =
     (case map_of d fname of None \<Rightarrow> Inl FileNotFoundError | Some e \<Rightarrow> Inr (entry_mtime e))"

definition os_makedirs :: "string \<Rightarrow> world \<Rightarrow> error + world" where
  \<comment> \<open>\<^verbatim>\<open>os.makedirs(f"secure_rooms/{room}", exist_ok=True)\<close>\<close>
  "os_makedirs room s =
     (if CHR 0x00 \<in> set room then Inl ValueError
      else if room \<noteq> [] \<and> CHR ''/'' \<notin> set room \<and> 255 < length (encode room) then Inl OSError
      else if \<not> plain_name room then Inl OutsideModel
      else case room_dirs s room of
             Some d \<Rightarrow> Inr s
           | None \<Rightarrow>
               (case store_files s room of
                  Some f \<Rightarrow> Inl FileExistsError
                | None \<Rightarrow> Inr (s\<lparr>room_dirs := (room_dirs s)(room \<mapsto> [])\<rparr>)))"

definition write_file :: "string \<Rightarrow> string \<Rightarrow> real \<Rightarrow> dir \<Rightarrow> error + dir" where
  \<comment> \<open>\<^verbatim>\<open>open(path, "w")\<close> or \<^verbatim>\<open>"wb"\<close>, then \<^verbatim>\<open>write(data)\<close>: creates or truncates\<close>
  "write_file fname data now d =
     (case map_of d fname of
        Some (Subdir m) \<Rightarrow> Inl IsADirectoryError
      | _ \<Rightarrow> Inr (AList.update fname (File \<lparr>content = data, mtime = now\<rparr>) d))"



subsection \<open>The retention sweep\<close>

text \<open>
  A naive local \<^verbatim>\<open>datetime\<close> is the reading of the local wall clock, here in
  microseconds, and a \<^verbatim>\<open>timedelta\<close> is a number of microseconds. \<open>fromtimestamp\<close> stands
  for \<^verbatim>\<open>datetime.fromtimestamp\<close>, which renders seconds since the epoch on the local
  wall clock of the machine's time zone, rounded to a microsecond; \<open>now\<close> is what the one call
  of \<^verbatim>\<open>datetime.now()\<close> before the loop returned.
\<close>

definition timedelta_hours :: "int \<Rightarrow> int" where
  "timedelta_hours h = h * 3600000000"

text \<open>
  \<open>cleanup_loop\<close> is the \<^verbatim>\<open>for\<close> loop of \<^verbatim>\<open>cleanup_old_files\<close> over the names
  that \<^verbatim>\<open>os.listdir\<close> returned, acting on the directory as it is at each iteration.
\<close>

fun cleanup_loop :: "(real \<Rightarrow> int) \<Rightarrow> int \<Rightarrow> string list \<Rightarrow> dir \<Rightarrow> error + dir" where
  "cleanup_loop fromtimestamp now [] d = Inr d"
| "cleanup_loop fromtimestamp now (fname # rest) d =
     (if fname = ''chat.txt'' then cleanup_loop fromtimestamp now rest d
      else case os_path_getmtime fname d of
             Inl e \<Rightarrow> Inl e
           | Inr m \<Rightarrow>
               if now - fromtimestamp m > timedelta_hours AUTO_DELETE_HOURS
               then (case os_remove fname d of
                       Inl e \<Rightarrow> Inl e
                     | Inr d' \<Rightarrow> cleanup_loop fromtimestamp now rest d')
               else cleanup_loop fromtimestamp now rest d)"

definition cleanup_old_files :: "(real \<Rightarrow> int) \<Rightarrow> string \<Rightarrow> int \<Rightarrow> world \<Rightarrow> error + world" where
  "cleanup_old_files fromtimestamp folder now s =
     (case room_dirs s folder of
        None \<Rightarrow> Inl FileNotFoundError
      | Some d \<Rightarrow>
          (case cleanup_loop fromtimestamp now (os_listdir d) d of
             Inl e \<Rightarrow> Inl e
           | Inr d' \<Rightarrow> Inr (s\<lparr>room_dirs := (room_dirs s)(folder \<mapsto> d')\<rparr>)))"

subsection \<open>Upload and listing\<close>

definition upload_file :: "string \<Rightarrow> string \<Rightarrow> string \<Rightarrow> real \<Rightarrow> world \<Rightarrow> error + world" where
  \<comment> \<open>lines 141 to 145: the uploaded bytes are written under the uploaded file's own name\<close>
  "upload_file room name data now s =
     (if CHR 0x00 \<in> set name then Inl ValueError
      else if CHR ''/'' \<in> set name then Inl OutsideModel
      else case room_dirs s room of
             None \<Rightarrow> Inl FileNotFoundError
           | Some d \<Rightarrow>
               if name = [] \<or> name = ''.'' \<or> name = ''..'' then Inl IsADirectoryError
               else if 255 < length (encode name) then Inl OSError
               else (case write_file name data now d of
                       Inl e \<Rightarrow> Inl e
                     | Inr d' \<Rightarrow> Inr (s\<lparr>room_dirs := (room_dirs s)(room \<mapsto> d')\<rparr>)))"

definition shared_files :: "dir \<Rightarrow> string list" where
  \<comment> \<open>line 149\<close>
  "shared_files d = filter (\<lambda>f. f \<noteq> ''chat.txt'') (os_listdir d)"


subsection \<open>The chat form\<close>








definition world0 :: world where
  \<comment> \<open>the store before the first run: no file and no room directory\<close>
  "world0 = \<lparr>rooms_file = None, otp_file = None, room_dirs = Map.empty, store_files = Map.empty\<rparr>"

section \<open>Room passwords\<close>

subsection \<open>SHA-256\<close>

text \<open>
  \<^verbatim>\<open>hashlib.sha256(...).hexdigest()\<close> is the SHA-256 digest of FIPS 180-4, written as 64
  lower-case hexadecimal digits. Bytes and 32-bit words are natural numbers, and the
  wrap-around of the 32-bit additions is written out in \<open>add32\<close>.
\<close>

definition add32 :: "nat \<Rightarrow> nat \<Rightarrow> nat" where
  "add32 x y = (x + y) mod 4294967296"

definition rotr :: "nat \<Rightarrow> nat \<Rightarrow> nat" where
  "rotr n x = x div 2 ^ n + (x mod 2 ^ n) * 2 ^ (32 - n)"

definition shr :: "nat \<Rightarrow> nat \<Rightarrow> nat" where
  "shr n x = x div 2 ^ n"

definition Ch :: "nat \<Rightarrow> nat \<Rightarrow> nat \<Rightarrow> nat" where
  "Ch x y z = xor (and x y) (and (xor x 4294967295) z)"

definition Maj :: "nat \<Rightarrow> nat \<Rightarrow> nat \<Rightarrow> nat" where
  "Maj x y z = xor (xor (and x y) (and x z)) (and y z)"

definition bsig0 :: "nat \<Rightarrow> nat" where
  "bsig0 x = xor (xor (rotr 2 x) (rotr 13 x)) (rotr 22 x)"

definition bsig1 :: "nat \<Rightarrow> nat" where
  "bsig1 x = xor (xor (rotr 6 x) (rotr 11 x)) (rotr 25 x)"

definition ssig0 :: "nat \<Rightarrow> nat" where
  "ssig0 x = xor (xor (rotr 7 x) (rotr 18 x)) (shr 3 x)"

definition ssig1 :: "nat \<Rightarrow> nat" where
  "ssig1 x = xor (xor (rotr 17 x) (rotr 19 x)) (shr 10 x)"

definition K256 :: "nat list" where
  \<comment> \<open>the round constants: the first 32 bits of the fractional parts of the cube roots of the first 64 primes\<close>
  "K256 =
    [1116352408, 1899447441, 3049323471, 3921009573, 961987163, 1508970993,
     2453635748, 2870763221, 3624381080, 310598401, 607225278, 1426881987,
     1925078388, 2162078206, 2614888103, 3248222580, 3835390401, 4022224774,
     264347078, 604807628, 770255983, 1249150122, 1555081692, 1996064986,
     2554220882, 2821834349, 2952996808, 3210313671, 3336571891, 3584528711,
     113926993, 338241895, 666307205, 773529912, 1294757372, 1396182291,
     1695183700, 1986661051, 2177026350, 2456956037, 2730485921, 2820302411,
     3259730800, 3345764771, 3516065817, 3600352804, 4094571909, 275423344,
     430227734, 506948616, 659060556, 883997877, 958139571, 1322822218,
     1537002063, 1747873779, 1955562222, 2024104815, 2227730452, 2361852424,
     2428436474, 2756734187, 3204031479, 3329325298]"

definition H0 :: "nat list" where
  \<comment> \<open>the initial hash value: the same of the square roots of the first 8 primes\<close>
  "H0 = [1779033703, 3144134277, 1013904242, 2773480762,
         1359893119, 2600822924, 528734635, 1541459225]"

text \<open>
  The message schedule: \<open>ws\<close> holds the words \<open>W\<^sub>0 \<dots> W\<^bsub>t-1\<^esub>\<close>, the newest first, and
  is extended up to \<open>W\<^bsub>63\<^esub>\<close>.
\<close>

function schedule :: "nat \<Rightarrow> nat list \<Rightarrow> nat list" where
  "schedule t ws =
     (if 64 \<le> t then rev ws
      else schedule (t + 1)
             (add32 (add32 (add32 (ssig1 (ws ! 1)) (ws ! 6)) (ssig0 (ws ! 14))) (ws ! 15) # ws))"
  by pat_completeness auto
termination
  by (relation "measure (\<lambda>(t, ws). 64 - t)") auto

declare schedule.simps [simp del]

fun round_step :: "nat list \<Rightarrow> nat \<times> nat \<Rightarrow> nat list" where
  "round_step [a, b, c, d, e, f, g, h] (k, w) =
     (let t1 = add32 (add32 (add32 (add32 h (bsig1 e)) (Ch e f g)) k) w;
          t2 = add32 (bsig0 a) (Maj a b c)
      in [add32 t1 t2, a, b, c, add32 d t1, e, f, g])"
| "round_step s kw = s"

definition compress :: "nat list \<Rightarrow> nat list \<Rightarrow> nat list" where
  "compress s blk = map2 add32 s (foldl round_step s (zip K256 (schedule 16 (rev blk))))"

fun be_words :: "nat list \<Rightarrow> nat list" where
  "be_words (a # b # c # d # rest) = (((a * 256 + b) * 256 + c) * 256 + d) # be_words rest"
| "be_words _ = []"

definition be_bytes8 :: "nat \<Rightarrow> nat list" where
  "be_bytes8 n = map (\<lambda>i. (n div 256 ^ i) mod 256) [7, 6, 5, 4, 3, 2, 1, 0]"

function zeros :: "nat \<Rightarrow> nat list" where
  "zeros n = (if n = 0 then [] else 0 # zeros (n - 1))"
  by pat_completeness auto
termination
  by (relation "measure id") auto

declare zeros.simps [simp del]

definition pad :: "nat list \<Rightarrow> nat list" where
  "pad m = m @ [128] @ zeros ((119 - length m mod 64) mod 64) @ be_bytes8 (8 * length m)"

function blocks :: "nat list \<Rightarrow> nat list \<Rightarrow> nat list" where
  "blocks s ws = (if ws = [] then s else blocks (compress s (take 16 ws)) (drop 16 ws))"
  by pat_completeness auto
termination
  by (relation "measure (\<lambda>(s, ws). length ws)") auto

declare blocks.simps [simp del]

definition sha256 :: "nat list \<Rightarrow> nat list" where
  "sha256 m = blocks H0 (be_words (pad m))"

definition hexchar :: "nat \<Rightarrow> char" where
  "hexchar n = ''0123456789abcdef'' ! n"

definition hex32 :: "nat \<Rightarrow> string" where
  "hex32 w = map (\<lambda>i. hexchar ((w div 16 ^ i) mod 16)) [7, 6, 5, 4, 3, 2, 1, 0]"

definition hexdigest :: "nat list \<Rightarrow> string" where
  "hexdigest m = concat (map hex32 (sha256 m))"

subsection \<open>The credential table\<close>

definition hash_pw :: "string \<Rightarrow> string" where
  "hash_pw password = hexdigest (encode password)"

definition check_password :: "string \<Rightarrow> string \<Rightarrow> bool" where
  "check_password password hashed \<longleftrightarrow> hash_pw password = hashed"

definition load_room_passwords :: "world \<Rightarrow> (string \<rightharpoonup> string) \<times> world" where
  "load_room_passwords s =
     (case rooms_file s of None \<Rightarrow> (Map.empty, s) | Some data \<Rightarrow> (data, s))"

definition save_room_passwords :: "(string \<rightharpoonup> string) \<Rightarrow> world \<Rightarrow> world" where
  "save_room_passwords data s = s\<lparr>rooms_file := Some data\<rparr>"

section \<open>The login handler\<close>

datatype credential_result = Created | Verified | Rejected

text \<open>
  Lines 98 to 108 of the login handler: the room's directory is made, then the room is
  created with the digest of the password when it is unknown, and the password is checked
  against the stored digest when it is known. When \<^verbatim>\<open>os.makedirs\<close> raises, nothing has
  been written.
\<close>

definition bootstrap_or_verify ::
  "string \<Rightarrow> string \<Rightarrow> world \<Rightarrow> error + credential_result \<times> world" where
  "bootstrap_or_verify room password s =
     (let (room_passwords, s1) = load_room_passwords s
      in case os_makedirs room s1 of
           Inl e \<Rightarrow> Inl e
         | Inr s2 \<Rightarrow>
             (case room_passwords room of
                Some hashed \<Rightarrow>
                  if \<not> check_password password hashed then Inr (Rejected, s2)
                  else Inr (Verified, s2)
              | None \<Rightarrow>
                  Inr (Created,
                       save_room_passwords (room_passwords(room \<mapsto> hash_pw password)) s2)))"

record session_state =
  st_authenticated :: bool
  st_username :: string
  st_room :: string

datatype login_result =
  MissingField | BadOtp | WrongPassword | LoggedIn credential_result | Raised error

text \<open>
  Lines 89 to 113, when the login button is pressed. \<^verbatim>\<open>st.stop()\<close> ends the run: the
  session and the world are as they are at that point; so does an exception.
\<close>

definition login ::
  "string \<Rightarrow> string \<Rightarrow> string \<Rightarrow> string \<Rightarrow> real \<Rightarrow> session_state \<Rightarrow> world \<Rightarrow>
   login_result \<times> session_state \<times> world" where
  "login username room password otp_input now ss s =
     (if username = [] \<or> room = [] \<or> password = [] \<or> otp_input = []
      then (MissingField, ss, s)
      else let (ok, s1) = validate_otp username otp_input now s
           in if \<not> ok then (BadOtp, ss, s1)
              else case bootstrap_or_verify room password s1 of
                     Inl e \<Rightarrow> (Raised e, ss, s1)
                   | Inr (r, s2) \<Rightarrow>
                       if r = Rejected then (WrongPassword, ss, s2)
                       else (LoggedIn r,
                             ss\<lparr>st_authenticated := True, st_username := username,
                                st_room := room\<rparr>,
                             s2))"

section \<open>Predicates of the statements and example worlds\<close>

definition is_subdir :: "entry \<Rightarrow> bool" where
  "is_subdir e = (case e of File f \<Rightarrow> False | Subdir m \<Rightarrow> True)"

definition keep_entry :: "(real \<Rightarrow> int) \<Rightarrow> int \<Rightarrow> string \<times> entry \<Rightarrow> bool" where
  \<comment> \<open>the entries a sweep leaves: the transcript, and what is aged twelve hours or less\<close>
  "keep_entry fromtimestamp now e \<longleftrightarrow>
     fst e = ''chat.txt'' \<or> \<not> now - fromtimestamp (entry_mtime (snd e)) > 43200000000"

definition blocked :: "(real \<Rightarrow> int) \<Rightarrow> int \<Rightarrow> string list \<Rightarrow> dir \<Rightarrow> bool" where
  \<comment> \<open>among the names still to visit there is a sub-directory that the sweep would remove\<close>
  "blocked fromtimestamp now ns d \<longleftrightarrow>
     (\<exists>e \<in> set d. fst e \<in> set ns \<and> is_subdir (snd e) \<and> \<not> keep_entry fromtimestamp now e)"

definition utc :: "real \<Rightarrow> int" where
  \<comment> \<open>\<^verbatim>\<open>datetime.fromtimestamp\<close> on a machine whose time zone is UTC\<close>
  "utc t = round (t * 1000000)"


definition demo_dir :: dir where
  "demo_dir = [(''old.pdf'', File \<lparr>content = ''a'', mtime = 0\<rparr>),
               (''chat.txt'', File \<lparr>content = ''hello'', mtime = 0\<rparr>),
               (''edge.txt'', File \<lparr>content = ''b'', mtime = 6800\<rparr>),
               (''drafts'', Subdir 30000),
               (''new.png'', File \<lparr>content = ''c'', mtime = 40000\<rparr>)]"

definition demo_world :: world where
  "demo_world = \<lparr>rooms_file = None, otp_file = None, room_dirs = [''teamroom'' \<mapsto> demo_dir],
     store_files = Map.empty\<rparr>"



definition chat_world :: world where
  "chat_world = \<lparr>rooms_file = None, otp_file = None,
     room_dirs = [''teamroom'' \<mapsto> [(''chat.txt'', File \<lparr>content = ''hello'', mtime = 0\<rparr>)]],
     store_files = Map.empty\<rparr>"


definition session0 :: session_state where
  \<comment> \<open>the session before login: every key holds the empty string, which is false\<close>
  "session0 = \<lparr>st_authenticated = False, st_username = [], st_room = []\<rparr>"

definition team_world :: world where
  \<comment> \<open>the world after the room \<^verbatim>\<open>teamroom\<close> was created with the password \<^verbatim>\<open>secret1\<close>\<close>
  "team_world = \<lparr>rooms_file = Some [''teamroom'' \<mapsto> hash_pw ''secret1''], otp_file = None,
     room_dirs = [''teamroom'' \<mapsto> []], store_files = Map.empty\<rparr>"

definition ghost_world :: world where
  \<comment> \<open>a credential for \<^verbatim>\<open>teamroom\<close> and a live code for alice, and no directory for the room\<close>
  "ghost_world = \<lparr>rooms_file = Some [''teamroom'' \<mapsto> hash_pw ''secret1''],
     otp_file = Some [''alice'' \<mapsto> \<lparr>otp = ''123456'', timestamp = 0\<rparr>],
     room_dirs = Map.empty, store_files = Map.empty\<rparr>"

definition alice_world :: world where
  \<comment> \<open>the same with the directory of the room\<close>
  "alice_world = ghost_world\<lparr>room_dirs := [''teamroom'' \<mapsto> []]\<rparr>"

definition long_room :: string where
  \<comment> \<open>a room name of 256 letters\<close>
  "long_room = replicate 256 CHR ''a''"

section \<open>Properties of the one-time passwords\<close>

lemma load_otps_world: "snd (load_otps s) = s"
  by (simp add: load_otps_def split: option.splits)

lemma load_otps_save_otps: "fst (load_otps (save_otps data s)) = data"
  by (simp add: load_otps_def save_otps_def)

lemma validate_otp_world: "snd (validate_otp username input_otp now s) = s"
  by (simp add: validate_otp_def load_otps_def split: option.splits prod.splits)

lemma validate_otp_result:
  "fst (validate_otp username input_otp now s) =
     (case fst (load_otps s) username of
        None \<Rightarrow> False
      | Some entry \<Rightarrow> \<not> now - timestamp entry > 300 \<and> otp entry = input_otp)"
  by (simp add: validate_otp_def load_otps_def split: option.splits prod.splits)

lemma generate_otp_code: "fst (generate_otp username r now s) = str_int r"
  by (simp add: generate_otp_def Let_def split: prod.splits)

lemma generate_otp_table:
  "fst (load_otps (snd (generate_otp username r now s))) =
     (fst (load_otps s))(username \<mapsto> \<lparr>otp = str_int r, timestamp = now\<rparr>)"
  by (simp add: generate_otp_def Let_def load_otps_def save_otps_def split: prod.splits option.splits)

text \<open>
  C2: \<open>validate_otp\<close> returns false exactly when no record exists for the username, or the
  record is older than 300 seconds (\<open>now - timestamp > 300\<close>), or the candidate differs
  from the stored code; in every other case it returns true.
\<close>

theorem validate_otp_false_iff:
  "fst (validate_otp username input_otp now s) = False \<longleftrightarrow>
     (fst (load_otps s) username = None \<or>
      (\<exists>entry. fst (load_otps s) username = Some entry \<and>
         (now - timestamp entry > 300 \<or> otp entry \<noteq> input_otp)))"
  by (auto simp: validate_otp_result split: option.splits)

theorem validate_otp_false_iff_witness:
  "fst (validate_otp ''alice'' ''123456'' 301 (snd (generate_otp ''alice'' 123456 0 world0))) = False \<and>
   fst (validate_otp ''alice'' ''123456'' 300 (snd (generate_otp ''alice'' 123456 0 world0))) = True \<and>
   fst (validate_otp ''alice'' ''123457'' 10 (snd (generate_otp ''alice'' 123456 0 world0))) = False \<and>
   fst (validate_otp ''bob'' ''123456'' 10 (snd (generate_otp ''alice'' 123456 0 world0))) = False"
proof -
  let ?s = "snd (generate_otp ''alice'' 123456 0 world0)"
  have tab: "fst (load_otps ?s) = Map.empty(''alice'' \<mapsto> \<lparr>otp = str_int 123456, timestamp = 0\<rparr>)"
    unfolding generate_otp_table by (simp add: load_otps_def world0_def)
  have code: "str_int 123456 = ''123456''"
    by (simp add: str_int_def str_nat.simps digit_char_def)
  have neq: "''123456'' \<noteq> ''123457''"
    by simp
  show ?thesis
    using validate_otp_false_iff [of "''alice''" "''123456''" 301 ?s]
      validate_otp_false_iff [of "''alice''" "''123456''" 300 ?s]
      validate_otp_false_iff [of "''alice''" "''123457''" 10 ?s]
      validate_otp_false_iff [of "''bob''" "''123456''" 10 ?s]
    by (simp add: tab code)
qed

text \<open>
  C4: issuing twice for one username leaves a single record, that of the second issue. While
  that record is within its window the second code validates, the first code no longer does
  when the two codes differ, and no candidate other than the second code validates.
\<close>

theorem generate_otp_twice:
  assumes "generate_otp username r1 t1 s = (c1, s1)"
    and "generate_otp username r2 t2 s1 = (c2, s2)"
    and "\<not> t3 - t2 > 300"
  shows "fst (load_otps s2) username = Some \<lparr>otp = c2, timestamp = t2\<rparr> \<and>
         fst (validate_otp username c2 t3 s2) = True \<and>
         (c1 \<noteq> c2 \<longrightarrow> fst (validate_otp username c1 t3 s2) = False) \<and>
         (\<forall>c. fst (validate_otp username c t3 s2) = (c = c2))"
proof -
  have c2: "c2 = str_int r2"
    using assms(2) generate_otp_code [of username r2 t2 s1] by simp
  have "s2 = snd (generate_otp username r2 t2 s1)"
    using assms(2) by simp
  then have tab: "fst (load_otps s2) username = Some \<lparr>otp = c2, timestamp = t2\<rparr>"
    by (simp add: generate_otp_table c2)
  have only: "fst (validate_otp username c t3 s2) = (c = c2)" for c
    using assms(3) by (auto simp: validate_otp_result tab)
  show ?thesis
    using tab only by simp
qed

theorem generate_otp_twice_witness:
  "fst (validate_otp ''alice'' ''654321'' 70 
      (snd (generate_otp ''alice'' 654321 60 (snd (generate_otp ''alice'' 123456 0 world0))))) = True \<and>
   fst (validate_otp ''alice'' ''123456'' 70 
      (snd (generate_otp ''alice'' 654321 60 (snd (generate_otp ''alice'' 123456 0 world0))))) = False"
proof -
  let ?s1 = "snd (generate_otp ''alice'' 123456 0 world0)"
  let ?s2 = "snd (generate_otp ''alice'' 654321 60 ?s1)"
  have g1: "generate_otp ''alice'' 123456 0 world0 = (''123456'', ?s1)"
    by (simp add: prod_eq_iff generate_otp_code str_int_def str_nat.simps digit_char_def)
  have g2: "generate_otp ''alice'' 654321 60 ?s1 = (''654321'', ?s2)"
    by (simp add: prod_eq_iff generate_otp_code str_int_def str_nat.simps digit_char_def)
  have w: "\<not> (70::real) - 60 > 300"
    by simp
  show ?thesis
    using generate_otp_twice [OF g1 g2 w] by simp
qed

text \<open>
  C7: \<open>validate_otp\<close> leaves the world as it found it, whatever it returns; hence a code
  that validated once validates again at any later reading of the clock that is still within
  300 seconds of the record's time of issue.
\<close>

theorem validate_otp_pure_replay:
  "snd (validate_otp username input_otp now s) = s \<and>
   (fst (validate_otp username input_otp now s) \<longrightarrow>
      (\<forall>entry now'. fst (load_otps s) username = Some entry \<longrightarrow>
         \<not> now' - timestamp entry > 300 \<longrightarrow>
         fst (validate_otp username input_otp now'
                (snd (validate_otp username input_otp now s)))))"
  by (auto simp: validate_otp_world validate_otp_result split: option.splits)

theorem validate_otp_pure_replay_witness:
  "snd (validate_otp ''alice'' ''123456'' 10 (snd (generate_otp ''alice'' 123456 0 world0))) =
     snd (generate_otp ''alice'' 123456 0 world0) \<and>
   fst (validate_otp ''alice'' ''123456'' 10 (snd (generate_otp ''alice'' 123456 0 world0))) \<and>
   fst (validate_otp ''alice'' ''123456'' 299
         (snd (validate_otp ''alice'' ''123456'' 10 (snd (generate_otp ''alice'' 123456 0 world0)))))"
proof -
  let ?s = "snd (generate_otp ''alice'' 123456 0 world0)"
  have tab: "fst (load_otps ?s) ''alice'' = Some \<lparr>otp = ''123456'', timestamp = 0\<rparr>"
    unfolding generate_otp_table by (simp add: str_int_def str_nat.simps digit_char_def)
  have first: "fst (validate_otp ''alice'' ''123456'' 10 ?s)"
    by (simp add: validate_otp_result tab)
  note replay = validate_otp_pure_replay [of "''alice''" "''123456''" 10 ?s]
  from replay have same: "snd (validate_otp ''alice'' ''123456'' 10 ?s) = ?s"
    by (rule conjunct1)
  from replay first
  have "\<forall>entry now'. fst (load_otps ?s) ''alice'' = Some entry \<longrightarrow>
          \<not> now' - timestamp entry > 300 \<longrightarrow>
          fst (validate_otp ''alice'' ''123456'' now' (snd (validate_otp ''alice'' ''123456'' 10 ?s)))"
    by blast
  from this [rule_format, OF tab, of 299]
  have again: "fst (validate_otp ''alice'' ''123456'' 299 (snd (validate_otp ''alice'' ''123456'' 10 ?s)))"
    by simp
  show ?thesis
    using same first again by blast
qed

text \<open>
  C10: \<open>generate_otp\<close> for one username leaves the record of every other username as it
  was (its code and its time of issue, or its absence), and touches neither the room
  passwords nor the room directories.
\<close>

theorem generate_otp_frame:
  "(\<forall>v. v \<noteq> username \<longrightarrow>
      fst (load_otps (snd (generate_otp username r now s))) v = fst (load_otps s) v) \<and>
   rooms_file (snd (generate_otp username r now s)) = rooms_file s \<and>
   room_dirs (snd (generate_otp username r now s)) = room_dirs s"
  by (simp add: generate_otp_table)
    (simp add: generate_otp_def Let_def load_otps_def save_otps_def split: prod.splits option.splits)

theorem generate_otp_frame_witness:
  "fst (load_otps (snd (generate_otp ''bob'' 222222 5 (snd (generate_otp ''alice'' 123456 0 world0)))))
      ''alice'' = Some \<lparr>otp = ''123456'', timestamp = 0\<rparr>"
proof -
  let ?s = "snd (generate_otp ''alice'' 123456 0 world0)"
  have tab: "fst (load_otps ?s) ''alice'' = Some \<lparr>otp = ''123456'', timestamp = 0\<rparr>"
    unfolding generate_otp_table by (simp add: str_int_def str_nat.simps digit_char_def)
  have neq: "''alice'' \<noteq> ''bob''"
    by simp
  show ?thesis
    using generate_otp_frame [of "''bob''" 222222 5 ?s] neq tab by simp
qed

section \<open>Properties of the retention sweep\<close>

lemma map_of_present:
  assumes "k \<in> fst ` set d"
  obtains v where "map_of d k = Some v"
  using assms by (cases "map_of d k") (auto simp: map_of_eq_None_iff)

lemma old_iff_not_keep:
  "fname \<noteq> ''chat.txt'' \<Longrightarrow>
   now - fromtimestamp (entry_mtime e) > timedelta_hours AUTO_DELETE_HOURS \<longleftrightarrow>
     \<not> keep_entry fromtimestamp now (fname, e)"
  by (simp add: keep_entry_def timedelta_hours_def AUTO_DELETE_HOURS_def)

lemma blocked_Cons:
  "blocked fromtimestamp now (fname # rest) d \<longleftrightarrow>
     (\<exists>e. (fname, e) \<in> set d \<and> is_subdir e \<and> \<not> keep_entry fromtimestamp now (fname, e)) \<or>
     blocked fromtimestamp now rest d"
proof -
  have "(\<exists>x \<in> set d. fst x = fname \<and> is_subdir (snd x) \<and> \<not> keep_entry fromtimestamp now x) \<longleftrightarrow>
        (\<exists>e. (fname, e) \<in> set d \<and> is_subdir e \<and> \<not> keep_entry fromtimestamp now (fname, e))"
    by force
  then show ?thesis
    unfolding blocked_def by auto
qed

lemma blocked_delete:
  "fname \<notin> set ns \<Longrightarrow>
   blocked fromtimestamp now ns (AList.delete fname d) = blocked fromtimestamp now ns d"
  unfolding blocked_def AList.delete_eq by force

lemma cleanup_loop_result:
  assumes "distinct (map fst d)" and "distinct ns" and "set ns \<subseteq> fst ` set d"
  shows "cleanup_loop fromtimestamp now ns d =
         (if blocked fromtimestamp now ns d then Inl IsADirectoryError
          else Inr (filter (\<lambda>e. fst e \<notin> set ns \<or> keep_entry fromtimestamp now e) d))"
  using assms
proof (induction ns arbitrary: d)
  case Nil
  then show ?case by (simp add: blocked_def)
next
  case (Cons fname rest)
  from Cons.prems have rest: "distinct rest" "fname \<notin> set rest" "set rest \<subseteq> fst ` set d"
    by auto
  note IH = Cons.IH [OF Cons.prems(1) rest(1) rest(3)]
  from Cons.prems(3) have "fname \<in> fst ` set d"
    by simp
  then obtain e where e: "map_of d fname = Some e"
    by (rule map_of_present)
  have only: "e' = e" if "(fname, e') \<in> set d" for e'
    using that e Cons.prems(1) by (simp add: map_of_eq_Some_iff)
  have mem: "(fname, e) \<in> set d"
    using e by (rule map_of_SomeD)
  show ?case
  proof (cases "keep_entry fromtimestamp now (fname, e)")
    case True
    have b: "blocked fromtimestamp now (fname # rest) d = blocked fromtimestamp now rest d"
      unfolding blocked_Cons using True only by blast
    have f: "filter (\<lambda>x. fst x \<notin> set rest \<or> keep_entry fromtimestamp now x) d =
             filter (\<lambda>x. fst x \<notin> set (fname # rest) \<or> keep_entry fromtimestamp now x) d"
      using True only by (intro filter_cong) auto
    show ?thesis
    proof (cases "fname = ''chat.txt''")
      case chat: True
      then show ?thesis
        using IH b f by simp
    next
      case False
      with True have "\<not> now - fromtimestamp (entry_mtime e) > timedelta_hours AUTO_DELETE_HOURS"
        by (simp add: old_iff_not_keep)
      with False show ?thesis
        using IH b f e by (simp add: os_path_getmtime_def)
    qed
  next
    case old: False
    then have nochat: "fname \<noteq> ''chat.txt''"
      by (auto simp: keep_entry_def)
    with old have test: "now - fromtimestamp (entry_mtime e) > timedelta_hours AUTO_DELETE_HOURS"
      by (simp add: old_iff_not_keep)
    show ?thesis
    proof (cases e)
      case (Subdir m)
      then have "is_subdir e"
        by (simp add: is_subdir_def)
      with mem old have "blocked fromtimestamp now (fname # rest) d"
        unfolding blocked_Cons by blast
      then show ?thesis
        using nochat test e Subdir by (simp add: os_path_getmtime_def os_remove_def)
    next
      case (File f)
      let ?d' = "AList.delete fname d"
      have "distinct (map fst ?d')"
        using Cons.prems(1) by (rule distinct_delete)
      moreover have "set rest \<subseteq> fst ` set ?d'"
      proof
        fix n assume n: "n \<in> set rest"
        with rest have "n \<in> set (map fst d)" "n \<noteq> fname"
          by auto
        then have "n \<in> set (map fst ?d')"
          by (simp add: delete_keys)
        then show "n \<in> fst ` set ?d'"
          by simp
      qed
      ultimately have IH': "cleanup_loop fromtimestamp now rest ?d' =
          (if blocked fromtimestamp now rest ?d' then Inl IsADirectoryError
           else Inr (filter (\<lambda>x. fst x \<notin> set rest \<or> keep_entry fromtimestamp now x) ?d'))"
        using rest(1) by (intro Cons.IH)
      have "\<not> is_subdir e"
        using File by (simp add: is_subdir_def)
      with only have "blocked fromtimestamp now (fname # rest) d = blocked fromtimestamp now rest d"
        unfolding blocked_Cons by blast
      with rest(2) have b: "blocked fromtimestamp now rest ?d' = blocked fromtimestamp now (fname # rest) d"
        by (simp add: blocked_delete)
      have f: "filter (\<lambda>x. fst x \<notin> set rest \<or> keep_entry fromtimestamp now x) ?d' =
               filter (\<lambda>x. fst x \<notin> set (fname # rest) \<or> keep_entry fromtimestamp now x) d"
        unfolding AList.delete_eq filter_filter
        using old only by (intro filter_cong) auto
      show ?thesis
        using nochat test e File IH' b f by (simp add: os_path_getmtime_def os_remove_def)
    qed
  qed
qed

lemma cleanup_loop_listdir:
  assumes "distinct (map fst d)"
  shows "cleanup_loop fromtimestamp now (os_listdir d) d =
         (if blocked fromtimestamp now (os_listdir d) d then Inl IsADirectoryError
          else Inr (filter (keep_entry fromtimestamp now) d))"
proof -
  have "filter (\<lambda>e. fst e \<notin> set (os_listdir d) \<or> keep_entry fromtimestamp now e) d =
        filter (keep_entry fromtimestamp now) d"
    by (intro filter_cong) (auto simp: os_listdir_def)
  moreover have "cleanup_loop fromtimestamp now (os_listdir d) d =
      (if blocked fromtimestamp now (os_listdir d) d then Inl IsADirectoryError
       else Inr (filter (\<lambda>e. fst e \<notin> set (os_listdir d) \<or> keep_entry fromtimestamp now e) d))"
    using assms by (intro cleanup_loop_result) (simp_all add: os_listdir_def)
  ultimately show ?thesis by simp
qed

lemma not_blocked_filter:
  "\<not> blocked fromtimestamp now ns (filter (keep_entry fromtimestamp now) d)"
  by (auto simp: blocked_def)

lemma distinct_filter_keys: "distinct (map fst d) \<Longrightarrow> distinct (map fst (filter P d))"
  by (simp add: distinct_map_filter)

lemma cleanup_old_files_eq:
  assumes "room_dirs s folder = Some d" and "distinct (map fst d)"
  shows "cleanup_old_files fromtimestamp folder now s =
         (if blocked fromtimestamp now (os_listdir d) d then Inl IsADirectoryError
          else Inr (s\<lparr>room_dirs := (room_dirs s)(folder \<mapsto> filter (keep_entry fromtimestamp now) d)\<rparr>))"
  using assms by (simp add: cleanup_old_files_def cleanup_loop_listdir)




text \<open>
  C6: a second sweep at the same reading of the clock, straight after the first, returns
  and leaves the world exactly as the first left it.
\<close>

theorem cleanup_old_files_idempotent:
  assumes "room_dirs s folder = Some d" and "distinct (map fst d)"
    and "cleanup_old_files fromtimestamp folder now s = Inr s'"
  shows "cleanup_old_files fromtimestamp folder now s' = Inr s'"
proof -
  let ?d' = "filter (keep_entry fromtimestamp now) d"
  have s': "s' = s\<lparr>room_dirs := (room_dirs s)(folder \<mapsto> ?d')\<rparr>"
    using assms(3) cleanup_old_files_eq [OF assms(1,2), of fromtimestamp now]
    by (simp split: if_splits)
  then have "room_dirs s' folder = Some ?d'"
    by simp
  moreover have "distinct (map fst ?d')"
    using assms(2) by (rule distinct_filter_keys)
  ultimately have "cleanup_old_files fromtimestamp folder now s' =
      (if blocked fromtimestamp now (os_listdir ?d') ?d' then Inl IsADirectoryError
       else Inr (s'\<lparr>room_dirs := (room_dirs s')(folder \<mapsto> filter (keep_entry fromtimestamp now) ?d')\<rparr>))"
    by (rule cleanup_old_files_eq)
  then show ?thesis
    by (simp add: not_blocked_filter s')
qed

theorem cleanup_old_files_idempotent_witness:
  "\<exists>s'. cleanup_old_files utc ''teamroom'' (utc 50000) demo_world = Inr s' \<and>
         s' \<noteq> demo_world \<and> cleanup_old_files utc ''teamroom'' (utc 50000) s' = Inr s'"
proof -
  have d: "room_dirs demo_world ''teamroom'' = Some demo_dir"
    by (simp add: demo_world_def)
  have u: "distinct (map fst demo_dir)"
    by (simp add: demo_dir_def)
  have nb: "\<not> blocked utc (utc 50000) (os_listdir demo_dir) demo_dir"
    by (simp add: blocked_def demo_dir_def is_subdir_def keep_entry_def entry_mtime_def utc_def)
  obtain s' where s': "cleanup_old_files utc ''teamroom'' (utc 50000) demo_world = Inr s'"
    and dir: "room_dirs s' ''teamroom'' = Some (filter (keep_entry utc (utc 50000)) demo_dir)"
    using cleanup_old_files_eq [OF d u, of utc "utc 50000"] nb by simp
  have "length (filter (keep_entry utc (utc 50000)) demo_dir) = 4"
    by (simp add: demo_dir_def keep_entry_def entry_mtime_def utc_def)
  moreover have "length demo_dir = 5"
    by (simp add: demo_dir_def)
  ultimately have "room_dirs s' ''teamroom'' \<noteq> room_dirs demo_world ''teamroom''"
    unfolding dir d by auto
  then have "s' \<noteq> demo_world"
    by auto
  with s' cleanup_old_files_idempotent [OF d u s'] show ?thesis
    by blast
qed

section \<open>Properties of the chat form and of uploads\<close>

lemma map_of_update_same: "map_of (AList.update k v d) k = Some v"
  by (simp add: update_conv')













lemma map_of_filter_keep:
  "map_of d k = Some v \<Longrightarrow> P (k, v) \<Longrightarrow> map_of (filter P d) k = Some v"
  by (induction d) (auto split: if_splits)

lemma write_file_regular:
  "\<forall>m. map_of d fname \<noteq> Some (Subdir m) \<Longrightarrow>
   write_file fname data now d = Inr (AList.update fname (File \<lparr>content = data, mtime = now\<rparr>) d)"
  by (cases "map_of d fname") (auto simp: write_file_def split: entry.splits)

text \<open>
  C9: in a room directory that holds regular files only, under unique names, an upload named
  \<^verbatim>\<open>chat.txt\<close> is written over the room's transcript: the file \<^verbatim>\<open>chat.txt\<close>
  then holds exactly the uploaded bytes, whatever it held before. It is left out of the
  shared-files listing, and no sweep, at whatever reading of whatever local clock, removes or
  changes it.
\<close>

theorem upload_chat_txt_replaces_transcript:
  assumes "room_dirs s room = Some d" and "distinct (map fst d)"
    and "\<forall>e \<in> snd ` set d. \<not> is_subdir e"
  shows "\<exists>s' d'. upload_file room ''chat.txt'' data now s = Inr s' \<and>
           room_dirs s' room = Some d' \<and>
           map_of d' ''chat.txt'' = Some (File \<lparr>content = data, mtime = now\<rparr>) \<and>
           ''chat.txt'' \<notin> set (shared_files d') \<and>
           (\<forall>fromtimestamp now'. \<exists>s'' d''.
              cleanup_old_files fromtimestamp room now' s' = Inr s'' \<and>
              room_dirs s'' room = Some d'' \<and>
              map_of d'' ''chat.txt'' = Some (File \<lparr>content = data, mtime = now\<rparr>))"
proof -
  let ?f = "File \<lparr>content = data, mtime = now\<rparr>"
  let ?d' = "AList.update ''chat.txt'' ?f d"
  let ?s' = "s\<lparr>room_dirs := (room_dirs s)(room \<mapsto> ?d')\<rparr>"
  have regular: "\<not> is_subdir e" if "(n, e) \<in> set d" for n e
    using assms(3) that by force
  have "map_of d ''chat.txt'' \<noteq> Some (Subdir m)" for m
  proof
    assume "map_of d ''chat.txt'' = Some (Subdir m)"
    then have "(''chat.txt'', Subdir m) \<in> set d"
      by (rule map_of_SomeD)
    then have "\<not> is_subdir (Subdir m)"
      by (rule regular)
    then show False
      by (simp add: is_subdir_def)
  qed
  then have w: "write_file ''chat.txt'' data now d = Inr ?d'"
    by (simp add: write_file_regular)
  have name: "length (encode ''chat.txt'') = 8"
    by (simp add: encode_def encode_char_def)
  have up: "upload_file room ''chat.txt'' data now s = Inr ?s'"
    using assms(1) w by (simp add: upload_file_def name)
  have dir: "room_dirs ?s' room = Some ?d'"
    by simp
  have entry: "map_of ?d' ''chat.txt'' = Some ?f"
    by (rule map_of_update_same)
  have listing: "''chat.txt'' \<notin> set (shared_files ?d')"
    by (simp add: shared_files_def)
  have uniq: "distinct (map fst ?d')"
    using assms(2) by (rule distinct_update)
  have files: "\<not> is_subdir (snd x)" if "x \<in> set ?d'" for x
  proof -
    from that have "x \<in> set d \<or> x = (''chat.txt'', ?f)"
      by (induction d) (auto split: if_splits)
    then show ?thesis
      using regular [of "fst x" "snd x"] by (auto simp: is_subdir_def)
  qed
  have sweep: "\<exists>s'' d''. cleanup_old_files fromtimestamp room now' ?s' = Inr s'' \<and>
      room_dirs s'' room = Some d'' \<and> map_of d'' ''chat.txt'' = Some ?f"
    for fromtimestamp now'
  proof -
    have "\<not> blocked fromtimestamp now' (os_listdir ?d') ?d'"
      using files by (auto simp: blocked_def)
    moreover have "map_of (filter (keep_entry fromtimestamp now') ?d') ''chat.txt'' = Some ?f"
      using entry by (rule map_of_filter_keep) (simp add: keep_entry_def)
    ultimately show ?thesis
      using cleanup_old_files_eq [OF dir uniq, of fromtimestamp now'] by simp
  qed
  from up dir entry listing sweep show ?thesis
    by blast
qed

theorem upload_chat_txt_replaces_transcript_witness:
  "\<exists>s' d'. upload_file ''teamroom'' ''chat.txt'' ''forged'' 7 chat_world = Inr s' \<and>
     room_dirs chat_world ''teamroom'' =
       Some [(''chat.txt'', File \<lparr>content = ''hello'', mtime = 0\<rparr>)] \<and>
     room_dirs s' ''teamroom'' = Some d' \<and>
     map_of d' ''chat.txt'' = Some (File \<lparr>content = ''forged'', mtime = 7\<rparr>) \<and>
     (\<exists>s'' d''. cleanup_old_files utc ''teamroom'' (utc 1000000) s' = Inr s'' \<and>
        room_dirs s'' ''teamroom'' = Some d'' \<and>
        map_of d'' ''chat.txt'' = Some (File \<lparr>content = ''forged'', mtime = 7\<rparr>))"
proof -
  have d: "room_dirs chat_world ''teamroom'' =
      Some [(''chat.txt'', File \<lparr>content = ''hello'', mtime = 0\<rparr>)]"
    by (simp add: chat_world_def)
  have u: "distinct (map fst [(''chat.txt'', File \<lparr>content = ''hello'', mtime = 0\<rparr>)])"
    by simp
  have r: "\<forall>e \<in> snd ` set [(''chat.txt'', File \<lparr>content = ''hello'', mtime = 0\<rparr>)]. \<not> is_subdir e"
    by (simp add: is_subdir_def)
  from upload_chat_txt_replaces_transcript [OF d u r, of "''forged''" 7] d
  show ?thesis
    by blast
qed

section \<open>Properties of the credential table and of the login handler\<close>

lemma load_room_passwords_world: "snd (load_room_passwords s) = s"
  by (simp add: load_room_passwords_def split: option.splits)

lemma load_room_passwords_pair: "load_room_passwords s = (fst (load_room_passwords s), s)"
  by (simp add: prod_eq_iff load_room_passwords_world)

lemma load_room_passwords_rooms_file:
  "rooms_file s' = rooms_file s \<Longrightarrow> fst (load_room_passwords s') = fst (load_room_passwords s)"
  by (simp add: load_room_passwords_def split: option.splits)

lemma os_makedirs_plain:
  assumes "plain_name room"
  shows "os_makedirs room s =
     (case room_dirs s room of
        Some d \<Rightarrow> Inr s
      | None \<Rightarrow>
          (case store_files s room of
             Some f \<Rightarrow> Inl FileExistsError
           | None \<Rightarrow> Inr (s\<lparr>room_dirs := (room_dirs s)(room \<mapsto> [])\<rparr>)))"
  using assms by (simp add: os_makedirs_def plain_name_def single_component_def)

lemma os_makedirs_Inr:
  assumes "os_makedirs room s = Inr s'"
  shows "plain_name room \<and>
         s' = (case room_dirs s room of
                 Some d \<Rightarrow> s
               | None \<Rightarrow> s\<lparr>room_dirs := (room_dirs s)(room \<mapsto> [])\<rparr>)"
  using assms by (auto simp: os_makedirs_def split: if_splits option.splits)

lemma bootstrap_or_verify_eq:
  "bootstrap_or_verify room password s =
     (case os_makedirs room s of
        Inl e \<Rightarrow> Inl e
      | Inr s2 \<Rightarrow>
          (case fst (load_room_passwords s) room of
             Some hashed \<Rightarrow> Inr (if hash_pw password = hashed then Verified else Rejected, s2)
           | None \<Rightarrow>
               Inr (Created,
                    s2\<lparr>rooms_file := Some ((fst (load_room_passwords s))(room \<mapsto> hash_pw password))\<rparr>)))"
  unfolding bootstrap_or_verify_def
  by (subst load_room_passwords_pair)
    (simp add: check_password_def save_room_passwords_def split: sum.splits option.splits)

lemma length_encode_replicate: "length (encode (replicate n CHR ''a'')) = n"
  by (induction n) (simp_all add: encode_def encode_char_def)

lemma plain_teamroom: "plain_name ''teamroom''"
  by (simp add: plain_name_def single_component_def encode_def encode_char_def)

lemma alice_world_differs: "alice_world \<noteq> ghost_world"
proof
  assume "alice_world = ghost_world"
  then have "room_dirs alice_world ''teamroom'' = room_dirs ghost_world ''teamroom''"
    by simp
  then show False
    by (simp add: alice_world_def ghost_world_def)
qed

subsection \<open>The digest\<close>

lemmas sha256_eval =
  hash_pw_def encode_def encode_char_def hexdigest_def sha256_def pad_def be_bytes8_def
  zeros.simps blocks.simps compress_def K256_def H0_def schedule.simps ssig0_def ssig1_def
  bsig0_def bsig1_def Ch_def Maj_def rotr_def shr_def add32_def hex32_def hexchar_def

text \<open>The model of the digest computes the digests that \<^verbatim>\<open>hashlib\<close> gives.\<close>

lemma hash_pw_secret1:
  "hash_pw ''secret1'' = ''5b11618c2e44027877d0cd0921ed166b9f176f50587fc91e7534dd2946db77d6''"
  by (simp add: sha256_eval)

lemma hash_pw_wrong:
  "hash_pw ''wrong'' = ''8810ad581e59f2bc3928b261707a71308f7e139eb04820366dc4d5c18d980225''"
  by (simp add: sha256_eval)

lemma hash_pw_wrong_secret1: "hash_pw ''wrong'' \<noteq> hash_pw ''secret1''"
  by (simp add: hash_pw_secret1 hash_pw_wrong)

text \<open>
  A digest has 64 characters, so two different non-empty passwords share one: the handler,
  which compares digests, cannot tell every two passwords apart.
\<close>

lemma length_round_step: "length s = 8 \<Longrightarrow> length (round_step s kw) = 8"
  by (induction s kw rule: round_step.induct) (simp_all add: Let_def)

lemma length_foldl_round_step: "length s = 8 \<Longrightarrow> length (foldl round_step s kws) = 8"
  by (induction kws arbitrary: s) (simp_all add: length_round_step)

lemma length_compress: "length s = 8 \<Longrightarrow> length (compress s blk) = 8"
  by (simp add: compress_def length_foldl_round_step)

lemma length_blocks: "length s = 8 \<Longrightarrow> length (blocks s ws) = 8"
proof (induction s ws rule: blocks.induct)
  case (1 s ws)
  show ?case
  proof (cases "ws = []")
    case True
    with 1 show ?thesis
      by (subst blocks.simps) simp
  next
    case False
    with 1 show ?thesis
      by (subst blocks.simps) (simp add: length_compress)
  qed
qed

lemma length_sha256: "length (sha256 m) = 8"
  by (simp add: sha256_def length_blocks H0_def)

lemma length_concat_hex32: "length (concat (map hex32 ws)) = 8 * length ws"
  by (induction ws) (simp_all add: hex32_def)

lemma length_hash_pw: "length (hash_pw password) = 64"
  by (simp add: hash_pw_def hexdigest_def length_concat_hex32 length_sha256)

lemma hash_pw_collision:
  "\<exists>p p'. p \<noteq> [] \<and> p' \<noteq> [] \<and> p \<noteq> p' \<and> hash_pw p = hash_pw p'"
proof (rule ccontr)
  assume "\<not> ?thesis"
  then have inj: "inj_on hash_pw (UNIV - {[]})"
    by (auto simp: inj_on_def)
  have "hash_pw ` (UNIV - {[]}) \<subseteq> {xs. set xs \<subseteq> UNIV \<and> length xs = 64}"
    by (auto simp: length_hash_pw)
  moreover have "finite {xs :: string. set xs \<subseteq> UNIV \<and> length xs = 64}"
    by (rule finite_lists_length_eq) simp
  ultimately have "finite (hash_pw ` (UNIV - {[]}))"
    by (rule finite_subset)
  then have "finite (UNIV - {[] :: string})"
    using inj by (rule finite_imageD)
  then have "finite (UNIV :: string set)"
    by simp
  then show False
    using infinite_UNIV_listI by blast
qed

subsection \<open>Bootstrap or verify\<close>

text \<open>
  C1 as stated fails. Not every first call returns \<open>Created\<close>: line 100 makes the
  directory \<^verbatim>\<open>secure_rooms/<room>\<close> from the room name as typed, and for a room name of
  256 letters \<^verbatim>\<open>os.makedirs\<close> raises (file name too long) before anything is stored. And
  the \<open>Created\<close> path is not the only one that writes: line 100 runs on every path, so a
  call that returns \<open>Verified\<close> for a room whose directory is missing creates the directory.
\<close>

theorem bootstrap_or_verify_counterexample:
  "long_room \<noteq> [] \<and>
   fst (load_room_passwords world0) long_room = None \<and>
   bootstrap_or_verify long_room ''secret1'' world0 = Inl OSError \<and>
   bootstrap_or_verify ''teamroom'' ''secret1'' ghost_world = Inr (Verified, alice_world) \<and>
   alice_world \<noteq> ghost_world"
proof -
  have "long_room \<noteq> []"
    by (simp add: long_room_def)
  moreover have "fst (load_room_passwords world0) long_room = None"
    by (simp add: load_room_passwords_def world0_def)
  moreover have "os_makedirs long_room world0 = Inl OSError"
    by (simp add: os_makedirs_def long_room_def length_encode_replicate)
  then have "bootstrap_or_verify long_room ''secret1'' world0 = Inl OSError"
    by (simp add: bootstrap_or_verify_eq)
  moreover have "os_makedirs ''teamroom'' ghost_world = Inr alice_world"
    by (simp add: os_makedirs_plain plain_teamroom) (simp add: ghost_world_def alice_world_def)
  then have "bootstrap_or_verify ''teamroom'' ''secret1'' ghost_world = Inr (Verified, alice_world)"
    by (simp add: bootstrap_or_verify_eq) (simp add: ghost_world_def load_room_passwords_def)
  ultimately show ?thesis
    using alice_world_differs by simp
qed

text \<open>
  C1, amended: for a room name that is a single ordinary path component, with no regular file
  of that name in the store: a call made while the credential table has no entry for the room
  (the first call) returns \<open>Created\<close> and stores the SHA-256 digest of the password, as 64
  hexadecimal digits, under the room name. A call made in any world whose table holds that
  digest for the room (a later call) returns \<open>Verified\<close> when the digest of the password
  given equals it, so with the same password always, and \<open>Rejected\<close> when it differs. Such a
  later call never writes the credential table; it writes nothing at all when the room's
  directory exists, as it does right after the first call, and otherwise only creates that
  directory.
\<close>

theorem bootstrap_or_verify_first_then_later:
  assumes "plain_name room" and "store_files s room = None"
    and "fst (load_room_passwords s) room = None"
  shows "\<exists>s'. bootstrap_or_verify room password s = Inr (Created, s') \<and>
           fst (load_room_passwords s') =
             (fst (load_room_passwords s))(room \<mapsto> hash_pw password) \<and>
           otp_file s' = otp_file s \<and> room_dirs s' room \<noteq> None \<and>
           (\<forall>t password'.
              fst (load_room_passwords t) room = Some (hash_pw password) \<longrightarrow>
              (room_dirs t room \<noteq> None \<or> store_files t room = None) \<longrightarrow>
              (\<exists>t'. bootstrap_or_verify room password' t =
                      Inr (if hash_pw password' = hash_pw password then Verified else Rejected, t') \<and>
                    rooms_file t' = rooms_file t \<and> otp_file t' = otp_file t \<and>
                    (room_dirs t room \<noteq> None \<longrightarrow> t' = t) \<and>
                    (room_dirs t room = None \<longrightarrow>
                       t' = t\<lparr>room_dirs := (room_dirs t)(room \<mapsto> [])\<rparr>)))"
proof -
  let ?s2 = "case room_dirs s room of
               Some d \<Rightarrow> s | None \<Rightarrow> s\<lparr>room_dirs := (room_dirs s)(room \<mapsto> [])\<rparr>"
  let ?s' = "?s2\<lparr>rooms_file := Some ((fst (load_room_passwords s))(room \<mapsto> hash_pw password))\<rparr>"
  have mk: "os_makedirs room s = Inr ?s2"
    using assms(1,2) by (simp add: os_makedirs_plain split: option.splits)
  have first: "bootstrap_or_verify room password s = Inr (Created, ?s')"
    using assms(3) mk by (simp add: bootstrap_or_verify_eq)
  have table: "fst (load_room_passwords ?s') =
      (fst (load_room_passwords s))(room \<mapsto> hash_pw password)"
    by (simp add: load_room_passwords_def)
  have otp: "otp_file ?s' = otp_file s"
    by (simp split: option.splits)
  have dir: "room_dirs ?s' room \<noteq> None"
    by (simp split: option.splits)
  have later: "\<exists>t'. bootstrap_or_verify room password' t =
        Inr (if hash_pw password' = hash_pw password then Verified else Rejected, t') \<and>
      rooms_file t' = rooms_file t \<and> otp_file t' = otp_file t \<and>
      (room_dirs t room \<noteq> None \<longrightarrow> t' = t) \<and>
      (room_dirs t room = None \<longrightarrow> t' = t\<lparr>room_dirs := (room_dirs t)(room \<mapsto> [])\<rparr>)"
    if known: "fst (load_room_passwords t) room = Some (hash_pw password)"
      and free: "room_dirs t room \<noteq> None \<or> store_files t room = None"
    for t password'
  proof -
    let ?t' = "case room_dirs t room of
                 Some d \<Rightarrow> t | None \<Rightarrow> t\<lparr>room_dirs := (room_dirs t)(room \<mapsto> [])\<rparr>"
    have mk': "os_makedirs room t = Inr ?t'"
      using assms(1) free by (auto simp: os_makedirs_plain split: option.splits)
    show ?thesis
    proof (intro exI conjI)
      show "bootstrap_or_verify room password' t =
          Inr (if hash_pw password' = hash_pw password then Verified else Rejected, ?t')"
        using known mk' by (simp add: bootstrap_or_verify_eq)
      show "rooms_file ?t' = rooms_file t"
        by (simp split: option.splits)
      show "otp_file ?t' = otp_file t"
        by (simp split: option.splits)
      show "room_dirs t room \<noteq> None \<longrightarrow> ?t' = t"
        by (simp split: option.splits)
      show "room_dirs t room = None \<longrightarrow> ?t' = t\<lparr>room_dirs := (room_dirs t)(room \<mapsto> [])\<rparr>"
        by simp
    qed
  qed
  have all_later: "\<forall>t password'.
      fst (load_room_passwords t) room = Some (hash_pw password) \<longrightarrow>
      (room_dirs t room \<noteq> None \<or> store_files t room = None) \<longrightarrow>
      (\<exists>t'. bootstrap_or_verify room password' t =
              Inr (if hash_pw password' = hash_pw password then Verified else Rejected, t') \<and>
            rooms_file t' = rooms_file t \<and> otp_file t' = otp_file t \<and>
            (room_dirs t room \<noteq> None \<longrightarrow> t' = t) \<and>
            (room_dirs t room = None \<longrightarrow>
               t' = t\<lparr>room_dirs := (room_dirs t)(room \<mapsto> [])\<rparr>))"
    using later by blast
  show ?thesis
    by (rule exI [of _ ?s']) (intro conjI first table otp dir all_later)
qed

theorem bootstrap_or_verify_first_then_later_witness:
  "bootstrap_or_verify ''teamroom'' ''secret1'' world0 = Inr (Created, team_world) \<and>
   fst (load_room_passwords team_world) ''teamroom'' =
     Some ''5b11618c2e44027877d0cd0921ed166b9f176f50587fc91e7534dd2946db77d6'' \<and>
   bootstrap_or_verify ''teamroom'' ''secret1'' team_world = Inr (Verified, team_world) \<and>
   bootstrap_or_verify ''teamroom'' ''wrong'' team_world = Inr (Rejected, team_world)"
proof -
  have free: "store_files world0 ''teamroom'' = None"
    by (simp add: world0_def)
  have new: "fst (load_room_passwords world0) ''teamroom'' = None"
    by (simp add: load_room_passwords_def world0_def)
  have "os_makedirs ''teamroom'' world0 = Inr (world0\<lparr>room_dirs := [''teamroom'' \<mapsto> []]\<rparr>)"
    by (simp add: os_makedirs_plain plain_teamroom) (simp add: world0_def)
  then have direct: "bootstrap_or_verify ''teamroom'' ''secret1'' world0 = Inr (Created, team_world)"
    by (simp add: bootstrap_or_verify_eq) (simp add: load_room_passwords_def world0_def team_world_def)
  from bootstrap_or_verify_first_then_later [OF plain_teamroom free new, of "''secret1''"]
  obtain s' where first: "bootstrap_or_verify ''teamroom'' ''secret1'' world0 = Inr (Created, s')"
    and table: "fst (load_room_passwords s') =
      (fst (load_room_passwords world0))(''teamroom'' \<mapsto> hash_pw ''secret1'')"
    and dir: "room_dirs s' ''teamroom'' \<noteq> None"
    and later: "\<forall>t password'.
      fst (load_room_passwords t) ''teamroom'' = Some (hash_pw ''secret1'') \<longrightarrow>
      (room_dirs t ''teamroom'' \<noteq> None \<or> store_files t ''teamroom'' = None) \<longrightarrow>
      (\<exists>t'. bootstrap_or_verify ''teamroom'' password' t =
              Inr (if hash_pw password' = hash_pw ''secret1'' then Verified else Rejected, t') \<and>
            rooms_file t' = rooms_file t \<and> otp_file t' = otp_file t \<and>
            (room_dirs t ''teamroom'' \<noteq> None \<longrightarrow> t' = t) \<and>
            (room_dirs t ''teamroom'' = None \<longrightarrow>
               t' = t\<lparr>room_dirs := (room_dirs t)(''teamroom'' \<mapsto> [])\<rparr>))"
    by blast
  from first direct have s': "s' = team_world"
    by simp
  from table have stored: "fst (load_room_passwords team_world) ''teamroom'' = Some (hash_pw ''secret1'')"
    by (simp add: s')
  from dir have there: "room_dirs team_world ''teamroom'' \<noteq> None"
    by (simp add: s')
  from later [rule_format, OF stored, of "''secret1''"] there
  have same: "bootstrap_or_verify ''teamroom'' ''secret1'' team_world = Inr (Verified, team_world)"
    by auto
  from later [rule_format, OF stored, of "''wrong''"] there
  have other: "bootstrap_or_verify ''teamroom'' ''wrong'' team_world = Inr (Rejected, team_world)"
    by (auto simp: hash_pw_wrong_secret1)
  from direct stored same other show ?thesis
    by (simp add: hash_pw_secret1)
qed

subsection \<open>Failed logins\<close>

lemma login_eq:
  "login username room password otp_input now ss s =
     (if username = [] \<or> room = [] \<or> password = [] \<or> otp_input = [] then (MissingField, ss, s)
      else if \<not> fst (validate_otp username otp_input now s) then (BadOtp, ss, s)
      else case bootstrap_or_verify room password s of
             Inl e \<Rightarrow> (Raised e, ss, s)
           | Inr (r, s2) \<Rightarrow>
               if r = Rejected then (WrongPassword, ss, s2)
               else (LoggedIn r,
                     ss\<lparr>st_authenticated := True, st_username := username, st_room := room\<rparr>,
                     s2))"
proof -
  have v: "validate_otp username otp_input now s = (fst (validate_otp username otp_input now s), s)"
    by (simp add: prod_eq_iff validate_otp_world)
  show ?thesis
    unfolding login_def by (subst v) simp
qed

lemma alice_tables:
  "fst (load_otps ghost_world) ''alice'' = Some \<lparr>otp = ''123456'', timestamp = 0\<rparr>"
  "fst (load_otps alice_world) ''alice'' = Some \<lparr>otp = ''123456'', timestamp = 0\<rparr>"
  "fst (load_room_passwords ghost_world) ''teamroom'' = Some (hash_pw ''secret1'')"
  "fst (load_room_passwords alice_world) ''teamroom'' = Some (hash_pw ''secret1'')"
  by (simp_all add: load_otps_def load_room_passwords_def ghost_world_def alice_world_def)

text \<open>
  C3 as stated fails: line 100 makes the room's directory before line 103 checks the
  password. With a credential for \<^verbatim>\<open>teamroom\<close> in the table and no directory for it, a
  login that is rejected for its wrong password leaves the directory behind.
\<close>

theorem failed_login_counterexample:
  "login ''alice'' ''teamroom'' ''wrong'' ''123456'' 10 session0 ghost_world =
     (WrongPassword, session0, alice_world) \<and>
   room_dirs ghost_world ''teamroom'' = None \<and>
   room_dirs alice_world ''teamroom'' = Some [] \<and>
   alice_world \<noteq> ghost_world"
proof -
  have "os_makedirs ''teamroom'' ghost_world = Inr alice_world"
    by (simp add: os_makedirs_plain plain_teamroom) (simp add: ghost_world_def alice_world_def)
  then have "bootstrap_or_verify ''teamroom'' ''wrong'' ghost_world = Inr (Rejected, alice_world)"
    by (simp add: bootstrap_or_verify_eq alice_tables hash_pw_wrong_secret1)
  then have "login ''alice'' ''teamroom'' ''wrong'' ''123456'' 10 session0 ghost_world =
      (WrongPassword, session0, alice_world)"
    by (simp add: login_eq validate_otp_result alice_tables)
  moreover have "room_dirs ghost_world ''teamroom'' = None"
    by (simp add: ghost_world_def)
  moreover have "room_dirs alice_world ''teamroom'' = Some []"
    by (simp add: alice_world_def)
  ultimately show ?thesis
    using alice_world_differs by simp
qed

text \<open>
  C3, amended: a login attempt that fails for a missing field or for an invalid or expired
  OTP leaves the whole world and the session as they were. One that fails for a wrong room
  password, the room name being a single ordinary path component, leaves the session, the
  credential table, the OTP table and every existing room directory with its files as they
  were; it leaves the whole world as it was when the room's directory exists, and otherwise
  the one change is that directory, created empty.
\<close>

theorem failed_login_changes:
  assumes "login username room password otp_input now ss s = (res, ss', s')"
  shows "(res = MissingField \<or> res = BadOtp \<longrightarrow> s' = s \<and> ss' = ss) \<and>
         (res = WrongPassword \<and> plain_name room \<longrightarrow>
            ss' = ss \<and> rooms_file s' = rooms_file s \<and> otp_file s' = otp_file s \<and>
            store_files s' = store_files s \<and>
            (\<forall>r d. room_dirs s r = Some d \<longrightarrow> room_dirs s' r = Some d) \<and>
            (room_dirs s room \<noteq> None \<longrightarrow> s' = s) \<and>
            (room_dirs s room = None \<longrightarrow> s' = s\<lparr>room_dirs := (room_dirs s)(room \<mapsto> [])\<rparr>))"
proof -
  have early: "s' = s \<and> ss' = ss" if "res = MissingField \<or> res = BadOtp"
    using assms that unfolding login_eq by (auto split: if_splits sum.splits prod.splits)
  have wrong: "ss' = ss \<and> rooms_file s' = rooms_file s \<and> otp_file s' = otp_file s \<and>
      store_files s' = store_files s \<and>
      (\<forall>r d. room_dirs s r = Some d \<longrightarrow> room_dirs s' r = Some d) \<and>
      (room_dirs s room \<noteq> None \<longrightarrow> s' = s) \<and>
      (room_dirs s room = None \<longrightarrow> s' = s\<lparr>room_dirs := (room_dirs s)(room \<mapsto> [])\<rparr>)"
    if w: "res = WrongPassword \<and> plain_name room"
  proof -
    from w assms have b: "bootstrap_or_verify room password s = Inr (Rejected, s')" and ss: "ss' = ss"
      unfolding login_eq by (auto split: if_splits sum.splits prod.splits)
    from b obtain s2 where mk: "os_makedirs room s = Inr s2"
      by (auto simp: bootstrap_or_verify_eq split: sum.splits)
    with b have s2: "s' = s2"
      by (auto simp: bootstrap_or_verify_eq split: option.splits if_splits)
    from mk have eq: "s2 = (case room_dirs s room of
        Some d \<Rightarrow> s | None \<Rightarrow> s\<lparr>room_dirs := (room_dirs s)(room \<mapsto> [])\<rparr>)"
      using os_makedirs_Inr by blast
    show ?thesis
      unfolding s2 eq using ss by (auto split: option.splits)
  qed
  from early wrong show ?thesis
    by blast
qed

theorem failed_login_changes_witness:
  "login ''alice'' ''teamroom'' ''wrong'' ''123456'' 20 session0 alice_world =
     (WrongPassword, session0, alice_world) \<and>
   login ''alice'' ''teamroom'' ''secret1'' ''654321'' 20 session0 alice_world =
     (BadOtp, session0, alice_world) \<and>
   login ''alice'' ''teamroom'' ''secret1'' ''123456'' 301 session0 alice_world =
     (BadOtp, session0, alice_world) \<and>
   login ''alice'' ''teamroom'' [] ''123456'' 20 session0 alice_world =
     (MissingField, session0, alice_world)"
proof -
  have dir: "room_dirs alice_world ''teamroom'' \<noteq> None"
    by (simp add: alice_world_def)
  have unchanged: "login u ''teamroom'' p c t session0 alice_world =
      (fst (login u ''teamroom'' p c t session0 alice_world), session0, alice_world)"
    if "fst (login u ''teamroom'' p c t session0 alice_world) = MissingField \<or>
        fst (login u ''teamroom'' p c t session0 alice_world) = BadOtp \<or>
        fst (login u ''teamroom'' p c t session0 alice_world) = WrongPassword" for u p c t
  proof -
    have "login u ''teamroom'' p c t session0 alice_world =
        (fst (login u ''teamroom'' p c t session0 alice_world),
         fst (snd (login u ''teamroom'' p c t session0 alice_world)),
         snd (snd (login u ''teamroom'' p c t session0 alice_world)))"
      by simp
    from failed_login_changes [OF this] that plain_teamroom dir
    have "snd (snd (login u ''teamroom'' p c t session0 alice_world)) = alice_world \<and>
          fst (snd (login u ''teamroom'' p c t session0 alice_world)) = session0"
      by blast
    then show ?thesis
      by (simp add: prod_eq_iff)
  qed
  have "os_makedirs ''teamroom'' alice_world = Inr alice_world"
    by (simp add: os_makedirs_plain plain_teamroom) (simp add: alice_world_def)
  then have "bootstrap_or_verify ''teamroom'' ''wrong'' alice_world = Inr (Rejected, alice_world)"
    by (simp add: bootstrap_or_verify_eq alice_tables hash_pw_wrong_secret1)
  then have wrong: "fst (login ''alice'' ''teamroom'' ''wrong'' ''123456'' 20 session0 alice_world) =
      WrongPassword"
    by (simp add: login_eq validate_otp_result alice_tables)
  have bad: "fst (login ''alice'' ''teamroom'' ''secret1'' ''654321'' 20 session0 alice_world) = BadOtp"
    by (simp add: login_eq validate_otp_result alice_tables)
  have late: "fst (login ''alice'' ''teamroom'' ''secret1'' ''123456'' 301 session0 alice_world) = BadOtp"
    by (simp add: login_eq validate_otp_result alice_tables)
  have missing: "fst (login ''alice'' ''teamroom'' [] ''123456'' 20 session0 alice_world) = MissingField"
    by (simp add: login_eq)
  show ?thesis
    using wrong bad late missing
      unchanged [of "''alice''" "''wrong''" "''123456''" 20]
      unchanged [of "''alice''" "''secret1''" "''654321''" 20]
      unchanged [of "''alice''" "''secret1''" "''123456''" 301]
      unchanged [of "''alice''" "[]" "''123456''" 20]
    by simp
qed

end
